theory Spec2Isabelle
  imports Main
begin

section \<open>The OAS router middleware (src/middleware/oas-router.js)\<close>

text \<open>
  The router receives an OpenAPI specification that an upstream middleware has already
  matched against the request, the requested path and the request method. It picks a
  controller module and an operation identifier, wraps \<open>res.send\<close> so that the
  outgoing payload is checked against the response schema of the specification, and
  calls the controller.

  The embedding follows the source function by function and keeps its names. The
  platform is made explicit: the module loader behind \<open>require\<close> and the schema
  validator (z-schema) are parameters collected in an environment, the logger, the
  module cache, the response's status code and the calls of the original
  \<open>res.send\<close> are fields of a state that every effectful function takes and returns,
  and an exception is the left summand of the result.
\<close>

subsection \<open>JavaScript values\<close>

text \<open>
  JSON values: the payloads a controller sends and the schemas of the specification.
  Numbers are the integers (floating point is outside the embedding). A string is a
  list of code units; only ASCII literals are compared. The members of an object are
  listed in enumeration order.
\<close>

datatype json =
    JNull
  | JBool bool
  | JNum int
  | JStr string
  | JArr "json list"
  | JObj "(string \<times> json) list"

text \<open>
  The exceptions the router can raise: a property read on \<open>undefined\<close>, a failed
  \<open>JSON.parse\<close>, and whatever \<open>require\<close> throws for a module that is absent or
  fails while it loads (the message is the loader's).
\<close>

datatype js_error =
    TypeError
  | SyntaxError
  | LoadError string

subsection \<open>The specification\<close>

text \<open>
  The specification tree, with the members the router reads: \<open>spec.paths[url][method]\<close> is an
  Operation Object with the optional members \<open>x-router-controller\<close> and \<open>operationId\<close> and
  the map \<open>responses\<close> from status code keys to Response Objects; a Response Object has an
  optional map \<open>content\<close> from media types to Media Type Objects, whose \<open>schema\<close> is optional.
  An absent member is \<open>None\<close> (JavaScript's \<open>undefined\<close>). The tree is typed as
  the OpenAPI format prescribes: \<open>paths\<close> and the \<open>responses\<close> of an operation are
  present, and the names are strings.
\<close>

record media_type =
  schema :: "json option"

record response_object =
  content :: "(string \<rightharpoonup> media_type) option"

record operation =
  x_router_controller :: "string option"
  operationId :: "string option"
  responses :: "string \<rightharpoonup> response_object"

record oas_spec =
  paths :: "string \<rightharpoonup> (string \<rightharpoonup> operation)"

text \<open>
  The values that reach \<open>nameMethod\<close> and \<open>nameOfPath\<close>: a string (the requested path) or
  an Operation Object of the specification (a plain object).
\<close>

datatype js_value =
    StringValue string
  | OperationObject operation

text \<open>
  \<open>v.toString()\<close>: a string is itself; a plain object inherits \<open>Object.prototype.toString\<close>.
\<close>

fun toString :: "js_value \<Rightarrow> string" where
  "toString (StringValue s) = s"
| "toString (OperationObject d) = ''[object Object]''"

text \<open>
  \<open>v.length\<close>: the number of code units of a string; a plain object has no such member.
\<close>

fun length_property :: "js_value \<Rightarrow> int option" where
  "length_property (StringValue s) = Some (int (length s))"
| "length_property (OperationObject d) = None"

text \<open>
  \<open>String.prototype.substring(start, end)\<close>: an \<open>end\<close> that is \<open>undefined\<close> is the
  length; both indices are clamped to the string and swapped when out of order.
\<close>

definition substring :: "string \<Rightarrow> int \<Rightarrow> int option \<Rightarrow> string" where
  "substring s indexStart indexEnd =
     (let len = int (length s);
          intEnd = (case indexEnd of None \<Rightarrow> len | Some e \<Rightarrow> e);
          finalStart = min (max indexStart 0) len;
          finalEnd = min (max intEnd 0) len;
          from = min finalStart finalEnd;
          to = max finalStart finalEnd
      in take (nat (to - from)) (drop (nat from) s))"

text \<open>\<open>String.prototype.toLowerCase\<close> on the ASCII letters (request methods are ASCII tokens).\<close>

definition lower_char :: "char \<Rightarrow> char" where
  "lower_char c =
     (case map_of (zip ''ABCDEFGHIJKLMNOPQRSTUVWXYZ'' ''abcdefghijklmnopqrstuvwxyz'') c of
        Some l \<Rightarrow> l
      | None \<Rightarrow> c)"

definition toLowerCase :: "string \<Rightarrow> string" where
  "toLowerCase s = map lower_char s"

text \<open>The decimal digits of a number, as \<open>String(n)\<close> and string concatenation print it.\<close>

definition digit_char :: "nat \<Rightarrow> char" where
  "digit_char d = ''0123456789'' ! d"

fun string_of_nat :: "nat \<Rightarrow> string" where
  "string_of_nat n =
     (if n < 10 then [digit_char n]
      else string_of_nat (n div 10) @ [digit_char (n mod 10)])"

declare string_of_nat.simps [simp del]

definition string_of_int :: "int \<Rightarrow> string" where
  "string_of_int i = (if i < 0 then CHR ''-'' # string_of_nat (nat (- i)) else string_of_nat (nat i))"

subsection \<open>Collaborators: the module loader, the validator, the logger, the response\<close>

text \<open>
  What \<open>require\<close> returns for a module that loads: its \<open>module.exports\<close>, which may be
  \<open>undefined\<close> or \<open>null\<close>, or an object with named operations.
\<close>

datatype js_exports =
    ExportsUndefined
  | ExportsNull
  | ExportsObject "string list"

text \<open>The loose comparison \<open>v == undefined\<close> holds of \<open>undefined\<close> and of \<open>null\<close>.\<close>

fun eq_undefined :: "js_exports \<Rightarrow> bool" where
  "eq_undefined ExportsUndefined = True"
| "eq_undefined ExportsNull = True"
| "eq_undefined (ExportsObject ms) = False"

text \<open>
  An error object of the validator; \<open>processErr\<close> reads its \<open>message\<close>.
\<close>

record validation_error =
  error_code :: string
  message :: string

text \<open>
  The environment of a router. \<open>module_files root name\<close> is what evaluating the file at
  \<open>path.join(root, name)\<close> yields: its exports, or the exception of a file that is absent,
  malformed or throws while loading. \<open>validator data schema\<close> is the \<open>err\<close> argument
  with which \<open>validator.validate(data, schema, callback)\<close> calls its callback: \<open>None\<close>
  when the data conforms, the list of errors otherwise. The validator checks the data
  when it is called and defers the callback to the next tick (\<open>process.nextTick\<close>), so
  the callback runs once, after the caller of \<open>validate\<close> has returned.
\<close>

record env =
  module_files :: "string \<Rightarrow> string \<Rightarrow> js_error + js_exports"
  validator :: "json \<Rightarrow> json option \<Rightarrow> validation_error list option"

text \<open>The argument of one \<open>logger.info\<close> call.\<close>

datatype logged =
    Message string
  | Number nat
  | Value "json option"

text \<open>
  The state: Node's cache of loaded modules (by root and name), the logger's output, the
  validations run so far (data and schema), the callbacks deferred to the next tick (each
  with the \<open>err\<close> it will receive and the parsed data its closure holds), the status
  code of the response, and the calls of the original \<open>res.send\<close>, each with the status
  code at the time of the call and the argument it received (\<open>None\<close> is \<open>undefined\<close>).
\<close>

record world =
  module_cache :: "string \<times> string \<rightharpoonup> js_exports"
  log :: "logged list"
  validated :: "(json \<times> json option) list"
  pending :: "(validation_error list option \<times> json) list"
  statusCode :: nat
  sent :: "(nat \<times> json option) list"

definition logger_info :: "logged \<Rightarrow> world \<Rightarrow> world" where
  "logger_info x w = w\<lparr>log := log w @ [x]\<rparr>"

text \<open>
  \<open>require(path.join(root, name))\<close>: a module already loaded comes from the cache; otherwise
  the file is evaluated, and cached when it loads. A load that throws leaves no cache entry.
\<close>

definition require :: "env \<Rightarrow> string \<Rightarrow> string \<Rightarrow> world \<Rightarrow> (js_error + js_exports) \<times> world" where
  "require e root name w =
     (case module_cache w (root, name) of
        Some ex \<Rightarrow> (Inr ex, w)
      | None \<Rightarrow>
          (case module_files e root name of
             Inl err \<Rightarrow> (Inl err, w)
           | Inr ex \<Rightarrow> (Inr ex, w\<lparr>module_cache := (module_cache w)((root, name) \<mapsto> ex)\<rparr>)))"

subsection \<open>The functions of the router\<close>

text \<open>
  \<open>processErr(err)\<close>: the loop appends a period, a space and the message of each error;
  the result is the accumulated string from index 2.
\<close>

fun processErr_loop :: "validation_error list \<Rightarrow> string \<Rightarrow> string" where
  "processErr_loop [] errors = errors"
| "processErr_loop (e # err) errors = processErr_loop err (errors @ ''. '' @ message e)"

definition processErr :: "validation_error list \<Rightarrow> string" where
  "processErr err =
     (let errors = processErr_loop err []
      in substring errors 2 (Some (int (length errors))))"

text \<open>\<open>existsController\<close>: an exception of \<open>require\<close> passes through.\<close>

definition existsController :: "env \<Rightarrow> string \<Rightarrow> string \<Rightarrow> world \<Rightarrow> (js_error + bool) \<times> world" where
  "existsController e locationOfControllers controllerName w =
     (case require e locationOfControllers controllerName w of
        (Inl err, w') \<Rightarrow> (Inl err, w')
      | (Inr load, w') \<Rightarrow> (if eq_undefined load then (Inr False, w') else (Inr True, w')))"

definition nameOfPath :: "js_value \<Rightarrow> string" where
  "nameOfPath reqPath = substring (toString reqPath) 1 (length_property reqPath)"

definition generateName :: "string \<Rightarrow> string" where
  "generateName url = nameOfPath (StringValue url) @ ''Controllers''"

definition nameMethod :: "js_value \<Rightarrow> string" where
  "nameMethod method =
     (let m = toString method
      in if m = ''GET'' then ''list''
         else if m = ''POST'' then ''create''
         else if m = ''PUT'' then ''update''
         else ''delete'')"

text \<open>
  \<open>spec.paths[url][method]\<close> followed by a property read: reading a property of
  \<open>undefined\<close> raises a TypeError, so a path or a method missing from the specification
  is an exception.
\<close>

definition operation_of :: "oas_spec \<Rightarrow> string \<Rightarrow> string \<Rightarrow> js_error + operation" where
  "operation_of spec url method =
     (case paths spec url of
        None \<Rightarrow> Inl TypeError
      | Some item \<Rightarrow> (case item method of None \<Rightarrow> Inl TypeError | Some d \<Rightarrow> Inr d))"

text \<open>
  \<open>generateOpId\<close>: the generated identifier is computed from the Operation Object
  \<open>spec.paths[url][method]\<close>, as the source passes it to \<open>nameMethod\<close> and \<open>nameOfPath\<close>.
\<close>

definition generateOpId :: "oas_spec \<Rightarrow> string \<Rightarrow> string \<Rightarrow> js_error + string" where
  "generateOpId spec url method =
     (case operation_of spec url method of
        Inl err \<Rightarrow> Inl err
      | Inr d \<Rightarrow>
          (case operationId d of
             Some opId \<Rightarrow> Inr opId
           | None \<Rightarrow> Inr (nameMethod (OperationObject d) @ nameOfPath (OperationObject d))))"

text \<open>The options of the router factory: the root from which controllers are loaded.\<close>

record router_options =
  controllers :: string

text \<open>
  The first part of \<open>OASRouter\<close>, up to the computation of \<open>opID\<close>: the controller name
  and the operation identifier of a request with method \<open>req_method\<close> for the path \<open>url\<close>.
\<close>

definition OASRouter_resolve ::
  "env \<Rightarrow> router_options \<Rightarrow> oas_spec \<Rightarrow> string \<Rightarrow> string \<Rightarrow> world \<Rightarrow> (js_error + string \<times> string) \<times> world" where
  "OASRouter_resolve e options spec url req_method w =
     (let method = toLowerCase req_method in
      case operation_of spec url method of
        Inl err \<Rightarrow> (Inl err, w)
      | Inr d \<Rightarrow>
          (let (r, w') =
                 (case x_router_controller d of
                    Some c \<Rightarrow> (Inr c, w)
                  | None \<Rightarrow>
                      (case existsController e (controllers options) (generateName url) w of
                         (Inl err, w') \<Rightarrow> (Inl err, w')
                       | (Inr True, w') \<Rightarrow> (Inr (generateName url), w')
                       | (Inr False, w') \<Rightarrow> (Inr ''Defualt'', w')))
           in case r of
                Inl err \<Rightarrow> (Inl err, w')
              | Inr controllerName \<Rightarrow>
                  (case generateOpId spec url method of
                     Inl err \<Rightarrow> (Inl err, w')
                   | Inr opID \<Rightarrow> (Inr (controllerName, opID), w'))))"

subsection \<open>JSON.stringify and JSON.parse\<close>

text \<open>
  \<open>JSON.stringify\<close> on a JSON value: no spaces, member names and strings quoted, the
  quotation mark, the backslash and the control characters escaped.
\<close>

definition hex_digit :: "nat \<Rightarrow> char" where
  "hex_digit d = ''0123456789abcdef'' ! d"

definition quote_unit :: "char \<Rightarrow> string" where
  "quote_unit c =
     (if c = CHR 0x22 then [CHR 0x5C, CHR 0x22]
      else if c = CHR 0x5C then [CHR 0x5C, CHR 0x5C]
      else if c = CHR 0x08 then [CHR 0x5C, CHR ''b'']
      else if c = CHR 0x0C then [CHR 0x5C, CHR ''f'']
      else if c = CHR 0x0A then [CHR 0x5C, CHR ''n'']
      else if c = CHR 0x0D then [CHR 0x5C, CHR ''r'']
      else if c = CHR 0x09 then [CHR 0x5C, CHR ''t'']
      else if (of_char c :: nat) < 32
        then [CHR 0x5C, CHR ''u'', CHR ''0'', CHR ''0'',
              hex_digit ((of_char c :: nat) div 16), hex_digit ((of_char c :: nat) mod 16)]
      else [c])"

definition QuoteJSONString :: "string \<Rightarrow> string" where
  "QuoteJSONString s = [CHR 0x22] @ concat (map quote_unit s) @ [CHR 0x22]"

fun stringify_value :: "json \<Rightarrow> string"
  and stringify_elements :: "json list \<Rightarrow> string"
  and stringify_members :: "(string \<times> json) list \<Rightarrow> string" where
  "stringify_value JNull = ''null''"
| "stringify_value (JBool b) = (if b then ''true'' else ''false'')"
| "stringify_value (JNum i) = string_of_int i"
| "stringify_value (JStr s) = QuoteJSONString s"
| "stringify_value (JArr xs) = ''['' @ stringify_elements xs @ '']''"
| "stringify_value (JObj kvs) = ''{'' @ stringify_members kvs @ ''}''"
| "stringify_elements [] = []"
| "stringify_elements [x] = stringify_value x"
| "stringify_elements (x # y # ys) = stringify_value x @ '','' @ stringify_elements (y # ys)"
| "stringify_members [] = []"
| "stringify_members [(k, v)] = QuoteJSONString k @ '':'' @ stringify_value v"
| "stringify_members ((k, v) # m # ms) =
     QuoteJSONString k @ '':'' @ stringify_value v @ '','' @ stringify_members (m # ms)"

text \<open>\<open>JSON.stringify(undefined)\<close> is \<open>undefined\<close>.\<close>

definition JSON_stringify :: "json option \<Rightarrow> string option" where
  "JSON_stringify v = map_option stringify_value v"

text \<open>
  \<open>JSON.parse\<close>, a recursive-descent parser of the JSON grammar for the values of type
  \<open>json\<close>: number literals are integer literals. The fuel bounds the nesting and is set
  from the length of the text.
\<close>

definition is_ws :: "char \<Rightarrow> bool" where
  "is_ws c = (c = CHR 0x20 \<or> c = CHR 0x09 \<or> c = CHR 0x0A \<or> c = CHR 0x0D)"

definition skip_ws :: "string \<Rightarrow> string" where
  "skip_ws s = dropWhile is_ws s"

definition is_digit :: "char \<Rightarrow> bool" where
  "is_digit c = (c \<in> set ''0123456789'')"

definition digit_value :: "char \<Rightarrow> nat" where
  "digit_value c =
     (case map_of (zip ''0123456789'' [0, 1, 2, 3, 4, 5, 6, 7, 8, 9]) c of
        Some d \<Rightarrow> d
      | None \<Rightarrow> 0)"

definition hex_value :: "char \<Rightarrow> nat option" where
  "hex_value c =
     map_of (zip ''0123456789abcdefABCDEF''
                 [0, 1, 2, 3, 4, 5, 6, 7, 8, 9, 10, 11, 12, 13, 14, 15, 10, 11, 12, 13, 14, 15]) c"

definition nat_of_digits :: "string \<Rightarrow> nat" where
  "nat_of_digits ds = foldl (\<lambda>a c. 10 * a + digit_value c) 0 ds"

definition parse_number :: "string \<Rightarrow> (json \<times> string) option" where
  "parse_number s =
     (let negative = (s \<noteq> [] \<and> hd s = CHR ''-'');
          s1 = (if negative then tl s else s);
          ds = takeWhile is_digit s1;
          rest = dropWhile is_digit s1
      in if ds = [] then None
         else if 1 < length ds \<and> hd ds = CHR ''0'' then None
         else if rest \<noteq> [] \<and> hd rest \<in> set ''.eE'' then None
         else Some (JNum (if negative then - int (nat_of_digits ds) else int (nat_of_digits ds)), rest))"

text \<open>
  The characters of a string literal after its opening quotation mark, up to the closing
  one. An escape \<open>\uXXXX\<close> is read when it names a code unit below 256.
\<close>

definition unescape :: "char \<Rightarrow> char option" where
  "unescape c =
     map_of [(CHR 0x22, CHR 0x22), (CHR 0x5C, CHR 0x5C), (CHR ''/'', CHR ''/''),
             (CHR ''b'', CHR 0x08), (CHR ''f'', CHR 0x0C), (CHR ''n'', CHR 0x0A),
             (CHR ''r'', CHR 0x0D), (CHR ''t'', CHR 0x09)] c"

fun parse_string_body :: "string \<Rightarrow> (string \<times> string) option" where
  "parse_string_body [] = None"
| "parse_string_body (c # cs) =
     (if c = CHR 0x22 then Some ([], cs)
      else if c = CHR 0x5C then
        (case cs of
           [] \<Rightarrow> None
         | esc # cs1 \<Rightarrow>
             (if esc = CHR ''u'' then
                (case cs1 of
                   h1 # h2 # h3 # h4 # cs2 \<Rightarrow>
                     (case (hex_value h1, hex_value h2, hex_value h3, hex_value h4) of
                        (Some a, Some b, Some x, Some y) \<Rightarrow>
                          (if a = 0 \<and> b = 0
                           then map_option (\<lambda>(str, rest). (char_of (16 * x + y) # str, rest))
                                  (parse_string_body cs2)
                           else None)
                      | _ \<Rightarrow> None)
                 | _ \<Rightarrow> None)
              else
                (case unescape esc of
                   None \<Rightarrow> None
                 | Some u \<Rightarrow> map_option (\<lambda>(str, rest). (u # str, rest)) (parse_string_body cs1))))
      else if (of_char c :: nat) < 32 then None
      else map_option (\<lambda>(str, rest). (c # str, rest)) (parse_string_body cs))"

fun parse_value :: "nat \<Rightarrow> string \<Rightarrow> (json \<times> string) option"
  and parse_elements :: "nat \<Rightarrow> string \<Rightarrow> (json list \<times> string) option"
  and parse_members :: "nat \<Rightarrow> string \<Rightarrow> ((string \<times> json) list \<times> string) option" where
  "parse_value 0 s = None"
| "parse_value (Suc n) s =
     (case skip_ws s of
        [] \<Rightarrow> None
      | c # cs \<Rightarrow>
          (if c = CHR ''['' then
             (case skip_ws cs of
                [] \<Rightarrow> None
              | c1 # cs1 \<Rightarrow>
                  (if c1 = CHR '']'' then Some (JArr [], cs1)
                   else map_option (\<lambda>(xs, rest). (JArr xs, rest)) (parse_elements n cs)))
           else if c = CHR ''{'' then
             (case skip_ws cs of
                [] \<Rightarrow> None
              | c1 # cs1 \<Rightarrow>
                  (if c1 = CHR ''}'' then Some (JObj [], cs1)
                   else map_option (\<lambda>(kvs, rest). (JObj kvs, rest)) (parse_members n cs)))
           else if c = CHR 0x22 then
             map_option (\<lambda>(str, rest). (JStr str, rest)) (parse_string_body cs)
           else if take 4 (c # cs) = ''true'' then Some (JBool True, drop 4 (c # cs))
           else if take 5 (c # cs) = ''false'' then Some (JBool False, drop 5 (c # cs))
           else if take 4 (c # cs) = ''null'' then Some (JNull, drop 4 (c # cs))
           else parse_number (c # cs)))"
| "parse_elements 0 s = None"
| "parse_elements (Suc n) s =
     (case parse_value n s of
        None \<Rightarrow> None
      | Some (x, rest) \<Rightarrow>
          (case skip_ws rest of
             [] \<Rightarrow> None
           | c # cs \<Rightarrow>
               (if c = CHR '','' then
                  map_option (\<lambda>(xs, rest'). (x # xs, rest')) (parse_elements n cs)
                else if c = CHR '']'' then Some ([x], cs)
                else None)))"
| "parse_members 0 s = None"
| "parse_members (Suc n) s =
     (case skip_ws s of
        [] \<Rightarrow> None
      | q # s1 \<Rightarrow>
          (if q \<noteq> CHR 0x22 then None
           else
             (case parse_string_body s1 of
                None \<Rightarrow> None
              | Some (k, s2) \<Rightarrow>
                  (case skip_ws s2 of
                     [] \<Rightarrow> None
                   | colon # s3 \<Rightarrow>
                       (if colon \<noteq> CHR '':'' then None
                        else
                          (case parse_value n s3 of
                             None \<Rightarrow> None
                           | Some (v, s4) \<Rightarrow>
                               (case skip_ws s4 of
                                  [] \<Rightarrow> None
                                | c # cs \<Rightarrow>
                                    (if c = CHR '','' then
                                       map_option (\<lambda>(kvs, rest). ((k, v) # kvs, rest))
                                         (parse_members n cs)
                                     else if c = CHR ''}'' then Some ([(k, v)], cs)
                                     else None))))))))"

text \<open>
  \<open>JSON.parse(text)\<close>: \<open>undefined\<close> is read as the text \<open>undefined\<close>, which is no JSON
  text; a text parses when one value and only white space follow.
\<close>

definition JSON_parse :: "string option \<Rightarrow> js_error + json" where
  "JSON_parse text =
     (case text of
        None \<Rightarrow> Inl SyntaxError
      | Some s \<Rightarrow>
          (case parse_value (Suc (length s)) s of
             None \<Rightarrow> Inl SyntaxError
           | Some (v, rest) \<Rightarrow> (if skip_ws rest = [] then Inr v else Inl SyntaxError)))"

subsection \<open>The response interceptor\<close>

text \<open>
  The callback that \<open>checkResponse\<close> passes to the validator: with errors it logs the
  warning and the parsed data, without it does nothing.
\<close>

definition validate_callback :: "validation_error list option \<Rightarrow> json \<Rightarrow> world \<Rightarrow> world" where
  "validate_callback err data w =
     (case err of
        None \<Rightarrow> w
      | Some errs \<Rightarrow>
          logger_info (Value (Some data))
            (logger_info (Message (''WARNING: wrong data in the response. '' @ processErr errs)) w))"

text \<open>The next tick of the event loop: the deferred callbacks run in the order they were queued.\<close>

definition process_nextTick :: "world \<Rightarrow> world" where
  "process_nextTick w =
     fold (\<lambda>(err, data). validate_callback err data) (pending w) (w\<lparr>pending := []\<rparr>)"

text \<open>
  \<open>checkResponse(code, spec, method, url, data)\<close>, where \<open>data\<close> is the first argument of
  the intercepted \<open>send\<close> (the source receives the \<open>arguments\<close> object and reads its
  element 0). The log entries written before an exception stay in the log. On the
  validated path the function returns with the callback queued: the warning of a mismatch
  is logged in the next tick, after the response has been handed to the original \<open>send\<close>.
\<close>

definition checkResponse ::
  "env \<Rightarrow> nat \<Rightarrow> oas_spec \<Rightarrow> string \<Rightarrow> string \<Rightarrow> string option \<Rightarrow> world \<Rightarrow> (js_error + unit) \<times> world" where
  "checkResponse e code spec method url data w =
     (let w1 = logger_info (Message ''Processing at checkResponse:'') w;
          w2 = logger_info (Message (''  -code: '' @ string_of_nat code)) w1;
          w3 = logger_info (Message (''  -spec: '' @ ''[object Object]'')) w2;
          w4 = logger_info (Message (''  -method: '' @ method)) w3;
          w5 = logger_info (Message (''  -url: '' @ url)) w4;
          w6 = logger_info (Message (''  -data: '' @ (case data of None \<Rightarrow> ''undefined'' | Some s \<Rightarrow> s))) w5
      in case operation_of spec url method of
           Inl err \<Rightarrow> (Inl err, w6)
         | Inr d \<Rightarrow>
             (case responses d (string_of_nat code) of
                None \<Rightarrow>
                  (Inr (), logger_info (Number code)
                             (logger_info (Message ''WARNING: wrong response code'') w6))
              | Some responseCodeSection \<Rightarrow>
                  (case content responseCodeSection of
                     None \<Rightarrow> (Inr (), w6)
                   | Some c \<Rightarrow>
                       (case c ''application/json'' of
                          None \<Rightarrow> (Inl TypeError, w6)
                        | Some mediaType \<Rightarrow>
                            (let validSchema = schema mediaType;
                                 w7 = logger_info (Message ''schema to use for validation'') w6;
                                 w8 = logger_info (Value validSchema) w7
                             in case JSON_parse data of
                                  Inl err \<Rightarrow> (Inl err, w8)
                                | Inr parsed \<Rightarrow>
                                    (Inr (),
                                     w8\<lparr>validated := validated w8 @ [(parsed, validSchema)],
                                        pending := pending w8
                                          @ [(validator e parsed validSchema, parsed)]\<rparr>))))))"

text \<open>
  The original \<open>res.send\<close> (\<open>oldSend\<close>): the transport receives the argument under the
  current status code.
\<close>

definition oldSend :: "json option \<Rightarrow> world \<Rightarrow> world" where
  "oldSend arg w = w\<lparr>sent := sent w @ [(statusCode w, arg)]\<rparr>"

text \<open>
  The function that \<open>OASRouter\<close> installs as \<open>res.send\<close>, called by a controller with one
  argument, the payload (\<open>None\<close> when it passes none). \<open>method\<close> is the request method
  in lower case. The first argument is replaced by its serialisation, checked, and passed
  to the original \<open>send\<close>; an exception of \<open>checkResponse\<close> leaves the function before
  the original \<open>send\<close> is called.
\<close>

definition OASRouter_send ::
  "env \<Rightarrow> oas_spec \<Rightarrow> string \<Rightarrow> string \<Rightarrow> json option \<Rightarrow> world \<Rightarrow> (js_error + unit) \<times> world" where
  "OASRouter_send e spec method url data w =
     (let arg0 = JSON_stringify data
      in case checkResponse e (statusCode w) spec method url arg0 w of
           (Inl err, w') \<Rightarrow> (Inl err, w')
         | (Inr u, w') \<Rightarrow> (Inr (), oldSend (map_option JStr arg0) w'))"

subsection \<open>A pet store\<close>

text \<open>
  The specification of the test server, reduced to the operations used below: \<open>GET /pets\<close>
  answers 200 with an array of pets as JSON, 400 with no content; \<open>GET /ping\<close> answers 200
  with plain text only; \<open>POST /pets\<close> names its controller and its operation.
\<close>

definition pet_schema :: json where
  "pet_schema =
     JObj [(''type'', JStr ''array''),
           (''items'', JObj [(''type'', JStr ''object''),
                             (''required'', JArr [JStr ''id'', JStr ''name'']),
                             (''properties'',
                              JObj [(''id'', JObj [(''type'', JStr ''integer'')]),
                                    (''name'', JObj [(''type'', JStr ''string'')]),
                                    (''tag'', JObj [(''type'', JStr ''string'')])])])]"

definition get_pets :: operation where
  "get_pets =
     \<lparr>x_router_controller = None, operationId = None,
      responses =
        [''200'' \<mapsto> \<lparr>content = Some [''application/json'' \<mapsto> \<lparr>schema = Some pet_schema\<rparr>]\<rparr>,
         ''400'' \<mapsto> \<lparr>content = None\<rparr>]\<rparr>"

definition post_pets :: operation where
  "post_pets =
     \<lparr>x_router_controller = Some ''petsController'', operationId = Some ''createPets'',
      responses = [''201'' \<mapsto> \<lparr>content = None\<rparr>]\<rparr>"

definition get_ping :: operation where
  "get_ping =
     \<lparr>x_router_controller = None, operationId = None,
      responses = [''200'' \<mapsto> \<lparr>content = Some [''text/plain'' \<mapsto> \<lparr>schema = Some (JObj [(''type'', JStr ''string'')])\<rparr>]\<rparr>]\<rparr>"

definition petstore :: oas_spec where
  "petstore =
     \<lparr>paths = [''/pets'' \<mapsto> [''get'' \<mapsto> get_pets, ''post'' \<mapsto> post_pets],
               ''/ping'' \<mapsto> [''get'' \<mapsto> get_ping]]\<rparr>"

text \<open>
  A validator that knows the pet schema as far as the outer type and the type of \<open>id\<close>:
  an array whose members all have an integer \<open>id\<close> conforms; any other array is one type
  error for \<open>id\<close>, and a value that is no array is one type error for the value.
\<close>

fun json_type :: "json \<Rightarrow> string" where
  "json_type JNull = ''null''"
| "json_type (JBool b) = ''boolean''"
| "json_type (JNum i) = ''integer''"
| "json_type (JStr s) = ''string''"
| "json_type (JArr xs) = ''array''"
| "json_type (JObj kvs) = ''object''"

definition invalid_type :: "string \<Rightarrow> string \<Rightarrow> validation_error" where
  "invalid_type expected found =
     \<lparr>error_code = ''INVALID_TYPE'',
      message = ''Expected type '' @ expected @ '' but found type '' @ found\<rparr>"

fun has_integer_id :: "json \<Rightarrow> bool" where
  "has_integer_id (JObj kvs) = (case map_of kvs ''id'' of Some (JNum i) \<Rightarrow> True | _ \<Rightarrow> False)"
| "has_integer_id v = False"

fun sample_validator :: "json \<Rightarrow> json option \<Rightarrow> validation_error list option" where
  "sample_validator (JArr xs) s =
     (if list_all has_integer_id xs then None else Some [invalid_type ''integer'' ''string''])"
| "sample_validator v s = Some [invalid_type ''array'' (json_type v)]"

text \<open>
  The controllers directories of the sample. Under \<open>/app/controllers\<close>,
  \<open>petsControllers\<close> exports two operations and \<open>pingControllers\<close> loads to
  \<open>undefined\<close>; under \<open>/app/null\<close>, \<open>pingControllers\<close> sets its exports to
  \<open>null\<close>; no other file exists.
\<close>

definition sample_files :: "string \<Rightarrow> string \<Rightarrow> js_error + js_exports" where
  "sample_files root name =
     (if root = ''/app/controllers'' \<and> name = ''petsControllers''
        then Inr (ExportsObject [''listpets'', ''createPets''])
      else if root = ''/app/controllers'' \<and> name = ''pingControllers''
        then Inr ExportsUndefined
      else if root = ''/app/null'' \<and> name = ''pingControllers''
        then Inr ExportsNull
      else Inl (LoadError (''Cannot find module '' @ root @ ''/'' @ name)))"

definition sample_env :: env where
  "sample_env = \<lparr>module_files = sample_files, validator = sample_validator\<rparr>"

definition sample_options :: router_options where
  "sample_options = \<lparr>controllers = ''/app/controllers''\<rparr>"

definition empty_options :: router_options where
  "empty_options = \<lparr>controllers = ''/app/empty''\<rparr>"

definition null_options :: router_options where
  "null_options = \<lparr>controllers = ''/app/null''\<rparr>"

definition world0 :: world where
  "world0 = \<lparr>module_cache = Map.empty, log = [], validated = [], pending = [],
             statusCode = 200, sent = []\<rparr>"

subsection \<open>Reference definitions for the properties\<close>

text \<open>The messages joined by a period and a space, with no separator in front.\<close>

fun period_joined :: "string list \<Rightarrow> string" where
  "period_joined [] = []"
| "period_joined [m] = m"
| "period_joined (m # n # ms) = m @ ''. '' @ period_joined (n # ms)"

text \<open>The six informational entries that \<open>checkResponse\<close> logs before it reads the specification.\<close>

definition checkResponse_header :: "nat \<Rightarrow> string \<Rightarrow> string \<Rightarrow> string option \<Rightarrow> logged list" where
  "checkResponse_header code method url data =
     [Message ''Processing at checkResponse:'',
      Message (''  -code: '' @ string_of_nat code),
      Message ''  -spec: [object Object]'',
      Message (''  -method: '' @ method),
      Message (''  -url: '' @ url),
      Message (''  -data: '' @ (case data of None \<Rightarrow> ''undefined'' | Some s \<Rightarrow> s))]"

text \<open>
  Where a number literal may end in a serialisation, and the characters with which a
  serialised value may start: used to state how the parser reads the output of
  \<open>JSON.stringify\<close>.
\<close>

definition number_end :: "string \<Rightarrow> bool" where
  "number_end rest = (rest = [] \<or> hd rest \<in> set '',]}'')"

definition value_start :: "char \<Rightarrow> bool" where
  "value_start c = (\<not> is_ws c \<and> c \<noteq> CHR '']'' \<and> c \<noteq> CHR ''}'')"

section \<open>Properties\<close>

subsection \<open>Strings\<close>

lemma substring_from:
  "0 \<le> k \<Longrightarrow> substring s k (Some (int (length s))) = drop (nat k) s"
  by (auto simp: substring_def Let_def min_def max_def)

lemma processErr_loop_append:
  "processErr_loop err acc = acc @ concat (map (\<lambda>e. ''. '' @ message e) err)"
  by (induction err arbitrary: acc) simp_all

lemma drop_separator:
  "drop 2 (concat (map (\<lambda>m. ''. '' @ m) ms)) = period_joined ms"
  by (induction ms rule: period_joined.induct) simp_all

lemma generateName_drop: "generateName url = drop 1 url @ ''Controllers''"
  by (simp add: generateName_def nameOfPath_def substring_from)

lemma generateName_not_default: "generateName url \<noteq> ''Defualt''"
proof
  assume "generateName url = ''Defualt''"
  then have "last (drop 1 url @ ''Controllers'') = last ''Defualt''"
    by (simp only: generateName_drop)
  then show False by simp
qed

lemma toLowerCase_methods:
  "toLowerCase ''GET'' = ''get''" "toLowerCase ''POST'' = ''post''"
  by (simp_all add: toLowerCase_def lower_char_def)

lemma string_of_nat_codes:
  "string_of_nat 200 = ''200''" "string_of_nat 400 = ''400''" "string_of_nat 418 = ''418''"
  by (simp_all add: string_of_nat.simps digit_char_def)

text \<open>
  C8. The text that \<open>processErr\<close> returns for the warning is the messages of the errors
  joined by a period and a space, the separator in front of the first one removed; for a
  single error it is that error's message.
\<close>

theorem processErr_period_joined:
  "processErr err = period_joined (map message err) \<and> processErr [e] = message e"
proof -
  have "processErr xs = period_joined (map message xs)" for xs
  proof -
    have "processErr xs = drop 2 (concat (map (\<lambda>e. ''. '' @ message e) xs))"
      by (simp add: processErr_def Let_def processErr_loop_append substring_from)
    also have "\<dots> = drop 2 (concat (map (\<lambda>m. ''. '' @ m) (map message xs)))"
      by (simp add: comp_def)
    finally show ?thesis by (simp only: drop_separator)
  qed
  from this [of err] this [of "[e]"] show ?thesis by simp
qed

subsection \<open>The pet store\<close>

lemma operation_of_petstore:
  "operation_of petstore ''/pets'' ''get'' = Inr get_pets"
  "operation_of petstore ''/pets'' ''post'' = Inr post_pets"
  "operation_of petstore ''/ping'' ''get'' = Inr get_ping"
  by (simp_all add: operation_of_def petstore_def)

subsection \<open>The operation identifier\<close>

text \<open>
  Without an \<open>operationId\<close> in the specification, the identifier is the same for every
  path and method: the verb and the name are taken from the Operation Object, whose
  \<open>toString()\<close> is \<open>[object Object]\<close>.
\<close>

lemma generateOpId_generated:
  "operation_of spec url method = Inr d \<Longrightarrow> operationId d = None \<Longrightarrow>
   generateOpId spec url method = Inr ''deleteobject Object]''"
  by (simp add: generateOpId_def nameMethod_def nameOfPath_def substring_def)

text \<open>
  C1. For \<open>GET /pets\<close>, which has no \<open>operationId\<close>, the verb of the method and the name
  of the path would give \<open>listpets\<close>. \<open>generateOpId\<close> returns \<open>deleteobject Object]\<close>,
  and so does the router for the request.
\<close>

theorem generateOpId_get_pets:
  "generateOpId petstore ''/pets'' ''get'' = Inr ''deleteobject Object]'' \<and>
   generateOpId petstore ''/pets'' ''get'' \<noteq> Inr ''listpets'' \<and>
   fst (OASRouter_resolve sample_env sample_options petstore ''/pets'' ''GET'' world0)
     = Inr (''petsControllers'', ''deleteobject Object]'')"
  by (simp add: generateOpId_generated [OF operation_of_petstore(1)] get_pets_def
       OASRouter_resolve_def toLowerCase_methods operation_of_petstore existsController_def require_def
       world0_def sample_env_def sample_options_def sample_files_def generateName_drop)

subsection \<open>The controller\<close>

text \<open>
  C3. \<open>GET /pets\<close> names no controller, and the root \<open>/app/empty\<close> holds no file
  \<open>petsControllers\<close>. The router does not fall back to the default controller: the
  exception of \<open>require\<close> leaves \<open>existsController\<close> and the router.
\<close>

theorem resolve_missing_module:
  "fst (OASRouter_resolve sample_env empty_options petstore ''/pets'' ''GET'' world0)
     = Inl (LoadError ''Cannot find module /app/empty/petsControllers'')"
  by (simp add: get_pets_def
       OASRouter_resolve_def toLowerCase_methods operation_of_petstore existsController_def require_def
       world0_def sample_env_def empty_options_def sample_files_def generateName_drop)

text \<open>
  C6. When the Operation Object of the path and method has an \<open>x-router-controller\<close>,
  the router takes its value as the controller name, whatever modules the controllers
  root holds and whatever the module cache holds; no module is loaded to decide.
\<close>

theorem override_verbatim:
  assumes "operation_of spec url (toLowerCase req_method) = Inr d"
    and "x_router_controller d = Some c"
  shows "\<exists>opID. OASRouter_resolve e options spec url req_method w = (Inr (c, opID), w)"
  using assms
  by (simp add: OASRouter_resolve_def generateOpId_def split: option.splits)

text \<open>
  \<open>POST /pets\<close> names \<open>petsController\<close>; the conventional module \<open>petsControllers\<close>
  exists under the root and is not chosen.
\<close>

theorem override_verbatim_witness:
  "operation_of petstore ''/pets'' (toLowerCase ''POST'') = Inr post_pets \<and>
   x_router_controller post_pets = Some ''petsController'' \<and>
   (\<exists>opID. OASRouter_resolve sample_env sample_options petstore ''/pets'' ''POST'' world0
      = (Inr (''petsController'', opID), world0))"
proof -
  have a: "operation_of petstore ''/pets'' (toLowerCase ''POST'') = Inr post_pets"
    by (simp add: toLowerCase_methods operation_of_petstore)
  have b: "x_router_controller post_pets = Some ''petsController''"
    by (simp add: post_pets_def)
  from override_verbatim [OF a b, of sample_env sample_options world0] a b
  show ?thesis by simp
qed

lemma require_again:
  "fst (require e root name (snd (require e root name w))) = fst (require e root name w)"
  by (simp add: require_def split: option.splits sum.splits)

lemma existsController_again:
  "fst (existsController e root name (snd (existsController e root name w)))
     = fst (existsController e root name w)"
  by (simp add: existsController_def require_def split: option.splits sum.splits)

text \<open>
  C9. Resolving a path and method a second time, in the state the first resolution left
  (the module cache may have grown), gives the same result as the first time: the same
  controller name and operation identifier, or the same exception.
\<close>

theorem resolve_idempotent:
  "fst (OASRouter_resolve e options spec url req_method
          (snd (OASRouter_resolve e options spec url req_method w)))
     = fst (OASRouter_resolve e options spec url req_method w)"
proof (cases "operation_of spec url (toLowerCase req_method)")
  case (Inl err)
  then show ?thesis by (simp add: OASRouter_resolve_def)
next
  case (Inr d)
  show ?thesis
  proof (cases "x_router_controller d")
    case (Some c)
    with Inr show ?thesis
      by (simp add: OASRouter_resolve_def split: sum.splits)
  next
    case None
    obtain r w' where first: "existsController e (controllers options) (generateName url) w = (r, w')"
      by (cases "existsController e (controllers options) (generateName url) w")
    obtain r2 w2 where second: "existsController e (controllers options) (generateName url) w' = (r2, w2)"
      by (cases "existsController e (controllers options) (generateName url) w'")
    have same: "r2 = r"
      using existsController_again [of e "controllers options" "generateName url" w] first second
      by simp
    have snd1: "snd (OASRouter_resolve e options spec url req_method w) = w'"
      using Inr None first
      by (simp add: OASRouter_resolve_def split: sum.splits bool.splits)
    show ?thesis
      unfolding snd1 using Inr None first second same
      by (simp add: OASRouter_resolve_def split: sum.splits bool.splits)
  qed
qed

text \<open>
  C10, as stated, fails for a module that sets its exports to \<open>null\<close>: the test
  \<open>load == undefined\<close> holds of \<open>null\<close> too. Under the root \<open>/app/null\<close> the module
  \<open>pingControllers\<close> loads, to \<open>null\<close> and not to \<open>undefined\<close>; \<open>existsController\<close>
  returns false and the router chooses the default controller for \<open>GET /ping\<close>.
\<close>

theorem null_module_is_default:
  "fst (require sample_env (controllers null_options) (generateName ''/ping'') world0) = Inr ExportsNull
   \<and> ExportsNull \<noteq> ExportsUndefined
   \<and> fst (existsController sample_env (controllers null_options) (generateName ''/ping'') world0) = Inr False
   \<and> fst (OASRouter_resolve sample_env null_options petstore ''/ping'' ''GET'' world0)
        = Inr (''Defualt'', ''deleteobject Object]'')"
proof -
  have o: "generateOpId petstore ''/ping'' ''get'' = Inr ''deleteobject Object]''"
    by (simp add: generateOpId_generated [OF operation_of_petstore(3)] get_ping_def)
  show ?thesis
    by (simp add: o get_ping_def OASRouter_resolve_def toLowerCase_methods operation_of_petstore
          existsController_def require_def world0_def sample_env_def null_options_def
          sample_files_def generateName_drop)
qed

text \<open>
  C10, amended. For every controllers root and controller name, \<open>existsController\<close>
  returns false exactly when \<open>require\<close> returns \<open>undefined\<close> or \<open>null\<close>, and an
  exception of \<open>require\<close> (the module is absent or fails to load) is the result of
  \<open>existsController\<close>, not false. For an operation without \<open>x-router-controller\<close>,
  that exception is the result of the router; the router chooses the default controller
  when the conventional module loads to \<open>undefined\<close> or \<open>null\<close>, and only then.
\<close>

theorem missing_module_raises:
  assumes "operation_of spec url (toLowerCase req_method) = Inr d"
    and "x_router_controller d = None"
  shows "((fst (existsController e root name w) = Inr False)
            = (\<exists>load. fst (require e root name w) = Inr load
                      \<and> (load = ExportsUndefined \<or> load = ExportsNull)))
       \<and> (\<forall>err. fst (require e root name w) = Inl err \<longrightarrow>
                 fst (existsController e root name w) = Inl err)
       \<and> (\<forall>err. fst (require e (controllers options) (generateName url) w) = Inl err \<longrightarrow>
                 fst (OASRouter_resolve e options spec url req_method w) = Inl err)
       \<and> ((\<exists>opID. fst (OASRouter_resolve e options spec url req_method w) = Inr (''Defualt'', opID))
            = (\<exists>load. fst (require e (controllers options) (generateName url) w) = Inr load
                      \<and> (load = ExportsUndefined \<or> load = ExportsNull)))"
proof -
  have check: "(fst (existsController e r n w) = Inr False)
                 = (\<exists>load. fst (require e r n w) = Inr load
                      \<and> (load = ExportsUndefined \<or> load = ExportsNull))" for r n
  proof (cases "require e r n w")
    case (Pair res w')
    then show ?thesis
    proof (cases res)
      case (Inl err)
      with Pair show ?thesis by (simp add: existsController_def)
    next
      case (Inr load)
      with Pair show ?thesis by (cases load) (simp_all add: existsController_def)
    qed
  qed
  have raises: "fst (require e r n w) = Inl err \<Longrightarrow> fst (existsController e r n w) = Inl err"
    for r n err
    by (cases "require e r n w") (simp add: existsController_def)
  obtain res w' where req: "require e (controllers options) (generateName url) w = (res, w')"
    by (cases "require e (controllers options) (generateName url) w")
  have router: "(\<forall>err. fst (require e (controllers options) (generateName url) w) = Inl err \<longrightarrow>
                   fst (OASRouter_resolve e options spec url req_method w) = Inl err)
       \<and> ((\<exists>opID. fst (OASRouter_resolve e options spec url req_method w) = Inr (''Defualt'', opID))
            = (\<exists>load. fst (require e (controllers options) (generateName url) w) = Inr load
                      \<and> (load = ExportsUndefined \<or> load = ExportsNull)))"
  proof (cases res)
    case (Inl err)
    with req assms show ?thesis
      by (simp add: existsController_def OASRouter_resolve_def)
  next
    case (Inr load)
    with req assms show ?thesis
      by (cases load)
         (auto simp: existsController_def OASRouter_resolve_def generateName_not_default
               generateOpId_def split: sum.splits option.splits)
  qed
  from check [of root name] raises [of root name] router show ?thesis by blast
qed

text \<open>
  \<open>GET /ping\<close> has no controller of its own and \<open>pingControllers\<close> loads to
  \<open>undefined\<close>: the default controller is chosen. Under the root \<open>/app/empty\<close> the
  module for \<open>GET /pets\<close> is absent: the exception of \<open>require\<close> is the result.
\<close>

theorem missing_module_raises_witness:
  "operation_of petstore ''/ping'' (toLowerCase ''GET'') = Inr get_ping \<and>
   x_router_controller get_ping = None \<and>
   fst (require sample_env (controllers sample_options) (generateName ''/ping'') world0) = Inr ExportsUndefined \<and>
   fst (existsController sample_env (controllers sample_options) (generateName ''/ping'') world0) = Inr False \<and>
   (\<exists>opID. fst (OASRouter_resolve sample_env sample_options petstore ''/ping'' ''GET'' world0)
             = Inr (''Defualt'', opID)) \<and>
   operation_of petstore ''/pets'' (toLowerCase ''GET'') = Inr get_pets \<and>
   x_router_controller get_pets = None \<and>
   fst (require sample_env (controllers empty_options) (generateName ''/pets'') world0)
     = Inl (LoadError ''Cannot find module /app/empty/petsControllers'') \<and>
   fst (existsController sample_env (controllers empty_options) (generateName ''/pets'') world0)
     = Inl (LoadError ''Cannot find module /app/empty/petsControllers'') \<and>
   fst (OASRouter_resolve sample_env empty_options petstore ''/pets'' ''GET'' world0)
     = Inl (LoadError ''Cannot find module /app/empty/petsControllers'')"
proof -
  have a1: "operation_of petstore ''/ping'' (toLowerCase ''GET'') = Inr get_ping"
    by (simp add: toLowerCase_methods operation_of_petstore)
  have b1: "x_router_controller get_ping = None"
    by (simp add: get_ping_def)
  have r1: "fst (require sample_env (controllers sample_options) (generateName ''/ping'') world0) = Inr ExportsUndefined"
    by (simp add: require_def world0_def sample_env_def sample_options_def sample_files_def generateName_drop)
  have a2: "operation_of petstore ''/pets'' (toLowerCase ''GET'') = Inr get_pets"
    by (simp add: toLowerCase_methods operation_of_petstore)
  have b2: "x_router_controller get_pets = None"
    by (simp add: get_pets_def)
  have r2: "fst (require sample_env (controllers empty_options) (generateName ''/pets'') world0)
     = Inl (LoadError ''Cannot find module /app/empty/petsControllers'')"
    by (simp add: require_def world0_def sample_env_def empty_options_def sample_files_def generateName_drop)
  from missing_module_raises [OF a1 b1, of sample_env "controllers sample_options" "generateName ''/ping''"
      world0 sample_options] r1
  have f1: "fst (existsController sample_env (controllers sample_options) (generateName ''/ping'') world0) = Inr False"
    and d1: "\<exists>opID. fst (OASRouter_resolve sample_env sample_options petstore ''/ping'' ''GET'' world0)
               = Inr (''Defualt'', opID)"
    by simp_all
  from missing_module_raises [OF a2 b2, of sample_env "controllers empty_options" "generateName ''/pets''"
      world0 empty_options] r2
  have e2: "fst (existsController sample_env (controllers empty_options) (generateName ''/pets'') world0)
              = Inl (LoadError ''Cannot find module /app/empty/petsControllers'')"
    and e3: "fst (OASRouter_resolve sample_env empty_options petstore ''/pets'' ''GET'' world0)
              = Inl (LoadError ''Cannot find module /app/empty/petsControllers'')"
    by simp_all
  from a1 b1 r1 f1 d1 a2 b2 r2 e2 e3 show ?thesis by simp
qed

subsection \<open>The paths through checkResponse\<close>

lemma checkResponse_unknown_code:
  assumes "operation_of spec url method = Inr d" and "responses d (string_of_nat code) = None"
  shows "checkResponse e code spec method url data w =
           (Inr (), w\<lparr>log := log w @ checkResponse_header code method url data
                                @ [Message ''WARNING: wrong response code'', Number code]\<rparr>)"
  using assms by (simp add: checkResponse_def logger_info_def checkResponse_header_def)


lemma checkResponse_no_json:
  assumes "operation_of spec url method = Inr d"
    and "responses d (string_of_nat code) = Some section" and "content section = Some c"
    and "c ''application/json'' = None"
  shows "checkResponse e code spec method url data w =
           (Inl TypeError, w\<lparr>log := log w @ checkResponse_header code method url data\<rparr>)"
  using assms by (simp add: checkResponse_def logger_info_def checkResponse_header_def)

lemma checkResponse_unparseable:
  assumes "operation_of spec url method = Inr d"
    and "responses d (string_of_nat code) = Some section" and "content section = Some c"
    and "c ''application/json'' = Some mediaType" and "JSON_parse data = Inl err"
  shows "checkResponse e code spec method url data w =
           (Inl err, w\<lparr>log := log w @ checkResponse_header code method url data
                                @ [Message ''schema to use for validation'', Value (schema mediaType)]\<rparr>)"
  using assms by (simp add: checkResponse_def logger_info_def checkResponse_header_def)

lemma checkResponse_validated:
  assumes "operation_of spec url method = Inr d"
    and "responses d (string_of_nat code) = Some section" and "content section = Some c"
    and "c ''application/json'' = Some mediaType" and "JSON_parse data = Inr parsed"
  shows "checkResponse e code spec method url data w =
           (Inr (), w\<lparr>log := log w @ checkResponse_header code method url data
                                @ [Message ''schema to use for validation'', Value (schema mediaType)],
                        validated := validated w @ [(parsed, schema mediaType)],
                        pending := pending w @ [(validator e parsed (schema mediaType), parsed)]\<rparr>)"
  using assms
  by (simp add: checkResponse_def logger_info_def checkResponse_header_def Let_def)



lemma stringify_pong: "JSON_stringify (Some (JStr ''pong'')) = Some (CHR 0x22 # ''pong'' @ [CHR 0x22])"
  by (simp add: JSON_stringify_def QuoteJSONString_def quote_unit_def)

lemma stringify_teapot: "JSON_stringify (Some (JStr ''teapot'')) = Some (CHR 0x22 # ''teapot'' @ [CHR 0x22])"
  by (simp add: JSON_stringify_def QuoteJSONString_def quote_unit_def)

subsection \<open>The interceptor\<close>

text \<open>
  C4. The 200 response of \<open>GET /ping\<close> has a \<open>content\<close> with \<open>text/plain\<close> only.
  Sending \<open>pong\<close> with status 200 does not skip the validation and deliver: reading
  \<open>schema\<close> of the absent \<open>application/json\<close> entry raises a TypeError, and the
  original \<open>send\<close> is never called.
\<close>

theorem send_content_without_json:
  "OASRouter_send sample_env petstore ''get'' ''/ping'' (Some (JStr ''pong'')) world0
     = (Inl TypeError,
        world0\<lparr>log := checkResponse_header 200 ''get'' ''/ping'' (Some (CHR 0x22 # ''pong'' @ [CHR 0x22]))\<rparr>)
   \<and> sent (snd (OASRouter_send sample_env petstore ''get'' ''/ping'' (Some (JStr ''pong'')) world0)) = []"
proof -
  have sc: "statusCode world0 = 200" by (simp add: world0_def)
  have a: "responses get_ping (string_of_nat 200)
             = Some \<lparr>content = Some [''text/plain'' \<mapsto> \<lparr>schema = Some (JObj [(''type'', JStr ''string'')])\<rparr>]\<rparr>"
    by (simp add: string_of_nat_codes get_ping_def)
  show ?thesis
    unfolding OASRouter_send_def stringify_pong sc
    by (simp add: checkResponse_no_json [OF operation_of_petstore(3) a] world0_def)
qed

text \<open>
  C7, as stated, fails where the payload is a string: \<open>GET /pets\<close> declares no response
  418, and the controller sends the string \<open>teapot\<close> with status 418. The original
  \<open>send\<close> receives the serialisation, the seven characters \<open>"teapot"\<close> with the quotation
  marks, not the payload.
\<close>

theorem unknown_code_payload_serialised:
  "sent (snd (OASRouter_send sample_env petstore ''get'' ''/pets'' (Some (JStr ''teapot''))
                (world0\<lparr>statusCode := 418\<rparr>)))
     = [(418, Some (JStr (CHR 0x22 # ''teapot'' @ [CHR 0x22])))]
   \<and> sent (snd (OASRouter_send sample_env petstore ''get'' ''/pets'' (Some (JStr ''teapot''))
                (world0\<lparr>statusCode := 418\<rparr>)))
     \<noteq> sent (world0\<lparr>statusCode := 418\<rparr>) @ [(418, Some (JStr ''teapot''))]"
proof -
  have sc: "statusCode (world0\<lparr>statusCode := 418\<rparr>) = 418" by simp
  have a: "responses get_pets (string_of_nat 418) = None"
    by (simp add: string_of_nat_codes get_pets_def)
  show ?thesis
    unfolding OASRouter_send_def stringify_teapot sc
    by (simp add: checkResponse_unknown_code [OF operation_of_petstore(1) a] oldSend_def world0_def)
qed

text \<open>
  C7, amended. When the status code of the response has no entry in \<open>responses\<close> of the
  operation, the interceptor returns without an exception: nothing is validated, the
  warning \<open>WARNING: wrong response code\<close> and the code are logged after the six
  informational entries, the status code stays, and the original \<open>send\<close> is called once,
  with the JSON serialisation of the payload.
\<close>

theorem unknown_code_delivered:
  assumes "operation_of spec url method = Inr d"
    and "responses d (string_of_nat (statusCode w)) = None"
  shows "OASRouter_send e spec method url data w =
           (Inr (), w\<lparr>log := log w @ checkResponse_header (statusCode w) method url (JSON_stringify data)
                                @ [Message ''WARNING: wrong response code'', Number (statusCode w)],
                        sent := sent w @ [(statusCode w, map_option JStr (JSON_stringify data))]\<rparr>)
       \<and> validated (snd (OASRouter_send e spec method url data w)) = validated w
       \<and> statusCode (snd (OASRouter_send e spec method url data w)) = statusCode w"
  by (simp add: OASRouter_send_def Let_def checkResponse_unknown_code [OF assms] oldSend_def)

text \<open>The pet store at status 418, with an array of one pet as the payload.\<close>

theorem unknown_code_delivered_witness:
  "operation_of petstore ''/pets'' ''get'' = Inr get_pets \<and>
   responses get_pets (string_of_nat (statusCode (world0\<lparr>statusCode := 418\<rparr>))) = None \<and>
   fst (OASRouter_send sample_env petstore ''get'' ''/pets'' (Some (JArr [JObj [(''id'', JNum 10)]]))
          (world0\<lparr>statusCode := 418\<rparr>)) = Inr () \<and>
   sent (snd (OASRouter_send sample_env petstore ''get'' ''/pets'' (Some (JArr [JObj [(''id'', JNum 10)]]))
          (world0\<lparr>statusCode := 418\<rparr>)))
     = [(418, Some (JStr (''[{'' @ [CHR 0x22] @ ''id'' @ [CHR 0x22] @ '':10}]'')))] \<and>
   validated (snd (OASRouter_send sample_env petstore ''get'' ''/pets'' (Some (JArr [JObj [(''id'', JNum 10)]]))
          (world0\<lparr>statusCode := 418\<rparr>))) = []"
proof -
  have a: "responses get_pets (string_of_nat (statusCode (world0\<lparr>statusCode := 418\<rparr>))) = None"
    by (simp add: string_of_nat_codes get_pets_def)
  have s: "JSON_stringify (Some (JArr [JObj [(''id'', JNum 10)]]))
             = Some (''[{'' @ [CHR 0x22] @ ''id'' @ [CHR 0x22] @ '':10}]'')"
    by (simp add: JSON_stringify_def QuoteJSONString_def quote_unit_def string_of_int_def
          string_of_nat.simps digit_char_def)
  from unknown_code_delivered [OF operation_of_petstore(1) a, of sample_env "Some (JArr [JObj [(''id'', JNum 10)]])"]
  show ?thesis
    using a operation_of_petstore(1) by (simp add: s world0_def)
qed

subsection \<open>JSON.parse reads what JSON.stringify writes\<close>

text \<open>Numbers: the digits of a number are read back as the number.\<close>

lemma small_digit:
  "d < 10 \<Longrightarrow> d \<in> {0, 1, 2, 3, 4, 5, 6, 7, 8, 9::nat}"
  by auto

lemma digit_char_props:
  assumes "d < 10"
  shows "is_digit (digit_char d)" and "digit_value (digit_char d) = d"
    and "digit_char d = CHR ''0'' \<longleftrightarrow> d = 0"
  using small_digit [OF assms]
  by (auto simp: digit_char_def is_digit_def digit_value_def)

lemma is_digit_not_special:
  assumes "is_digit c"
  shows "c \<noteq> CHR ''-''" "c \<noteq> CHR ''[''" "c \<noteq> CHR ''{''" "c \<noteq> CHR 0x22" "\<not> is_ws c"
    "c \<noteq> CHR ''t''" "c \<noteq> CHR ''f''" "c \<noteq> CHR ''n''" "c \<noteq> CHR '']''" "c \<noteq> CHR ''}''"
    "c \<noteq> CHR '',''" "c \<notin> set ''.eE''"
  using assms by (auto simp: is_digit_def is_ws_def)

lemma string_of_nat_digits: "\<forall>c \<in> set (string_of_nat n). is_digit c"
proof (induction n rule: string_of_nat.induct)
  case (1 n)
  show ?case
  proof (cases "n < 10")
    case True
    then show ?thesis by (simp add: string_of_nat.simps [of n] digit_char_props)
  next
    case False
    with 1 show ?thesis
      by (simp add: string_of_nat.simps [of n] digit_char_props)
  qed
qed

lemma string_of_nat_nonempty: "string_of_nat n \<noteq> []"
  by (simp add: string_of_nat.simps [of n])

lemma nat_of_digits_snoc: "nat_of_digits (ds @ [c]) = 10 * nat_of_digits ds + digit_value c"
  by (simp add: nat_of_digits_def)

lemma nat_of_digits_string_of_nat: "nat_of_digits (string_of_nat n) = n"
proof (induction n rule: string_of_nat.induct)
  case (1 n)
  show ?case
  proof (cases "n < 10")
    case True
    then show ?thesis
      by (simp add: string_of_nat.simps [of n] nat_of_digits_def digit_char_props)
  next
    case False
    with 1 have "nat_of_digits (string_of_nat (n div 10)) = n div 10" by simp
    with False show ?thesis
      by (simp add: string_of_nat.simps [of n] nat_of_digits_snoc digit_char_props)
  qed
qed

lemma hd_string_of_nat: "0 < n \<Longrightarrow> hd (string_of_nat n) \<noteq> CHR ''0''"
proof (induction n rule: string_of_nat.induct)
  case (1 n)
  show ?case
  proof (cases "n < 10")
    case True
    with 1(2) show ?thesis
      by (simp add: string_of_nat.simps [of n] digit_char_props)
  next
    case False
    then have "0 < n div 10" by simp
    with 1(1) False have "hd (string_of_nat (n div 10)) \<noteq> CHR ''0''" by simp
    with False show ?thesis
      by (simp add: string_of_nat.simps [of n] string_of_nat_nonempty)
  qed
qed

lemma string_of_nat_zero: "string_of_nat 0 = ''0''"
  by (simp add: string_of_nat.simps digit_char_def)

lemma no_leading_zero: "\<not> (1 < length (string_of_nat n) \<and> hd (string_of_nat n) = CHR ''0'')"
  by (cases "n = 0") (simp_all add: string_of_nat_zero hd_string_of_nat)

lemma number_end_props:
  assumes "number_end rest"
  shows "takeWhile is_digit rest = []" and "dropWhile is_digit rest = rest"
    and "rest = [] \<or> hd rest \<notin> set ''.eE''"
  using assms by (cases rest; auto simp: number_end_def is_digit_def)+

lemma parse_number_nat:
  assumes "number_end rest"
  shows "parse_number (string_of_nat n @ rest) = Some (JNum (int n), rest)"
proof -
  have hd_digit: "is_digit (hd (string_of_nat n @ rest))"
    using string_of_nat_digits [of n] string_of_nat_nonempty [of n]
    by (cases "string_of_nat n") auto
  then have not_neg: "hd (string_of_nat n @ rest) \<noteq> CHR ''-''"
    by (rule is_digit_not_special)
  have tw: "takeWhile is_digit (string_of_nat n @ rest) = string_of_nat n"
    using string_of_nat_digits [of n] number_end_props(1) [OF assms]
    by (simp add: takeWhile_append2)
  have dw: "dropWhile is_digit (string_of_nat n @ rest) = rest"
    using string_of_nat_digits [of n] number_end_props(2) [OF assms]
    by (simp add: dropWhile_append2)
  show ?thesis
    using not_neg no_leading_zero [of n] number_end_props(3) [OF assms]
    by (auto simp add: parse_number_def Let_def tw dw string_of_nat_nonempty nat_of_digits_string_of_nat)
qed

lemma parse_number_int:
  assumes "number_end rest"
  shows "parse_number (string_of_int i @ rest) = Some (JNum i, rest)"
proof (cases "i < 0")
  case False
  then show ?thesis
    using parse_number_nat [OF assms, of "nat i"] by (simp add: string_of_int_def)
next
  case True
  have tw: "takeWhile is_digit (string_of_nat (nat (- i)) @ rest) = string_of_nat (nat (- i))"
    using string_of_nat_digits [of "nat (- i)"] number_end_props(1) [OF assms]
    by (simp add: takeWhile_append2)
  have dw: "dropWhile is_digit (string_of_nat (nat (- i)) @ rest) = rest"
    using string_of_nat_digits [of "nat (- i)"] number_end_props(2) [OF assms]
    by (simp add: dropWhile_append2)
  show ?thesis
    using True no_leading_zero [of "nat (- i)"] number_end_props(3) [OF assms]
    by (auto simp add: string_of_int_def parse_number_def Let_def tw dw string_of_nat_nonempty
          nat_of_digits_string_of_nat)
qed

text \<open>Strings: the escapes of \<open>QuoteJSONString\<close> are read back as the characters.\<close>

lemma small_hex:
  "d < 16 \<Longrightarrow> d \<in> {0, 1, 2, 3, 4, 5, 6, 7, 8, 9, 10, 11, 12, 13, 14, 15::nat}"
  by simp arith

lemma hex_value_hex_digit: "d < 16 \<Longrightarrow> hex_value (hex_digit d) = Some d"
  using small_hex [of d] by (auto simp: hex_digit_def hex_value_def)

lemma hex_value_zero: "hex_value CHR ''0'' = Some 0"
  by (simp add: hex_value_def)

lemma parse_string_body_unit:
  "parse_string_body (quote_unit c @ tail)
     = map_option (\<lambda>(str, rest). (c # str, rest)) (parse_string_body tail)"
proof -
  consider (special) "c \<in> {CHR 0x22, CHR 0x5C, CHR 0x08, CHR 0x0C, CHR 0x0A, CHR 0x0D, CHR 0x09}"
    | (control) "c \<notin> {CHR 0x22, CHR 0x5C, CHR 0x08, CHR 0x0C, CHR 0x0A, CHR 0x0D, CHR 0x09}"
        "(of_char c :: nat) < 32"
    | (plain) "c \<notin> {CHR 0x22, CHR 0x5C, CHR 0x08, CHR 0x0C, CHR 0x0A, CHR 0x0D, CHR 0x09}"
        "\<not> (of_char c :: nat) < 32"
    by blast
  then show ?thesis
  proof cases
    case special
    then show ?thesis
      by (auto simp: quote_unit_def unescape_def)
  next
    case control
    have lo: "(of_char c :: nat) mod 16 < 16" by simp
    have hi: "(of_char c :: nat) div 16 < 16" using control(2) by simp
    have again: "char_of (16 * ((of_char c :: nat) div 16) + (of_char c :: nat) mod 16) = c"
      by simp
    from control show ?thesis
      by (simp add: quote_unit_def hex_value_zero hex_value_hex_digit [OF lo]
            hex_value_hex_digit [OF hi] again)
  next
    case plain
    then show ?thesis
      by (simp add: quote_unit_def)
  qed
qed

lemma parse_string_body_quoted:
  "parse_string_body (concat (map quote_unit s) @ CHR 0x22 # rest) = Some (s, rest)"
  by (induction s) (simp_all add: parse_string_body_unit)

text \<open>The first character of a text selects the production of the grammar.\<close>

lemma parse_value_literals:
  "parse_value (Suc n) (''null'' @ rest) = Some (JNull, rest)"
  "parse_value (Suc n) (''true'' @ rest) = Some (JBool True, rest)"
  "parse_value (Suc n) (''false'' @ rest) = Some (JBool False, rest)"
  by (simp_all add: skip_ws_def is_ws_def)

lemma number_start_not_special:
  assumes "c = CHR ''-'' \<or> is_digit c"
  shows "\<not> is_ws c" "c \<noteq> CHR ''[''" "c \<noteq> CHR ''{''" "c \<noteq> CHR 0x22"
    "c \<noteq> CHR ''t''" "c \<noteq> CHR ''f''" "c \<noteq> CHR ''n''" "c \<noteq> CHR '']''" "c \<noteq> CHR ''}''"
  using assms by (auto simp: is_digit_def is_ws_def)

lemma skip_ws_start: "\<not> is_ws c \<Longrightarrow> skip_ws (c # cs) = c # cs"
  by (simp add: skip_ws_def)

lemma parse_value_number:
  assumes "c = CHR ''-'' \<or> is_digit c"
  shows "parse_value (Suc n) (c # cs) = parse_number (c # cs)"
  using number_start_not_special [OF assms]
  by (simp add: skip_ws_start)


lemma parse_value_string:
  "parse_value (Suc n) (CHR 0x22 # cs)
     = map_option (\<lambda>(str, rest). (JStr str, rest)) (parse_string_body cs)"
  by (simp add: skip_ws_def is_ws_def)

lemma parse_value_empty:
  "parse_value (Suc n) (CHR ''['' # CHR '']'' # rest) = Some (JArr [], rest)"
  "parse_value (Suc n) (CHR ''{'' # CHR ''}'' # rest) = Some (JObj [], rest)"
  by (simp_all add: skip_ws_def is_ws_def)

lemma parse_value_array:
  assumes "value_start c"
  shows "parse_value (Suc n) (CHR ''['' # c # cs)
           = map_option (\<lambda>(xs, rest). (JArr xs, rest)) (parse_elements n (c # cs))"
proof -
  have "skip_ws (CHR ''['' # c # cs) = CHR ''['' # c # cs" by (simp add: skip_ws_def is_ws_def)
  moreover have "skip_ws (c # cs) = c # cs" using assms by (simp add: skip_ws_start value_start_def)
  moreover have "c \<noteq> CHR '']''" using assms by (simp add: value_start_def)
  ultimately show ?thesis by simp
qed

lemma parse_value_object:
  assumes "value_start c"
  shows "parse_value (Suc n) (CHR ''{'' # c # cs)
           = map_option (\<lambda>(kvs, rest). (JObj kvs, rest)) (parse_members n (c # cs))"
proof -
  have "skip_ws (CHR ''{'' # c # cs) = CHR ''{'' # c # cs" by (simp add: skip_ws_def is_ws_def)
  moreover have "skip_ws (c # cs) = c # cs" using assms by (simp add: skip_ws_start value_start_def)
  moreover have "c \<noteq> CHR ''}''" using assms by (simp add: value_start_def)
  ultimately show ?thesis by simp
qed

lemma string_of_int_start:
  "string_of_int i \<noteq> [] \<and> (hd (string_of_int i) = CHR ''-'' \<or> is_digit (hd (string_of_int i)))"
proof (cases "i < 0")
  case True
  then show ?thesis by (simp add: string_of_int_def)
next
  case False
  have "is_digit (hd (string_of_nat (nat i)))"
    using string_of_nat_digits [of "nat i"] string_of_nat_nonempty [of "nat i"]
    by (cases "string_of_nat (nat i)") auto
  with False show ?thesis by (simp add: string_of_int_def string_of_nat_nonempty)
qed

lemma quote_start: "QuoteJSONString s = CHR 0x22 # concat (map quote_unit s) @ [CHR 0x22]"
  by (simp add: QuoteJSONString_def)

lemma value_start_chars:
  "value_start CHR ''n''" "value_start CHR ''t''" "value_start CHR ''f''" "value_start CHR 0x22"
  "value_start CHR ''[''" "value_start CHR ''{''"
  by (simp_all add: value_start_def is_ws_def)

lemma stringify_value_start:
  "stringify_value v \<noteq> [] \<and> value_start (hd (stringify_value v))"
proof (cases v)
  case (JNum i)
  with string_of_int_start [of i] number_start_not_special [of "hd (string_of_int i)"]
  show ?thesis by (simp add: value_start_def)
next
  case (JBool b)
  then show ?thesis by (cases b) (simp_all add: value_start_chars)
qed (simp_all add: value_start_chars quote_start)

lemma stringify_elements_start:
  "xs \<noteq> [] \<Longrightarrow> stringify_elements xs \<noteq> [] \<and> value_start (hd (stringify_elements xs))"
proof (cases xs)
  case (Cons x ys)
  then show ?thesis
    using stringify_value_start [of x] by (cases ys) simp_all
qed simp

lemma stringify_members_start:
  "kvs \<noteq> [] \<Longrightarrow> stringify_members kvs \<noteq> [] \<and> hd (stringify_members kvs) = CHR 0x22"
proof (cases kvs)
  case (Cons kv ms)
  then show ?thesis
    by (cases kv; cases ms) (simp_all add: quote_start)
qed simp

text \<open>
  Values, by induction along the serialiser: with fuel at least the length of the
  serialisation, the parser reads a serialised value back and stops right after it.
\<close>

lemma number_end_chars:
  "number_end []" "number_end (CHR '','' # s)" "number_end (CHR '']'' # s)" "number_end (CHR ''}'' # s)"
  by (simp_all add: number_end_def)

lemma skip_ws_chars:
  "skip_ws (CHR '','' # s) = CHR '','' # s" "skip_ws (CHR '']'' # s) = CHR '']'' # s"
  "skip_ws (CHR ''}'' # s) = CHR ''}'' # s" "skip_ws (CHR '':'' # s) = CHR '':'' # s"
  "skip_ws (CHR 0x22 # s) = CHR 0x22 # s"
  by (simp_all add: skip_ws_def is_ws_def)

lemma parse_elements_last:
  assumes "parse_value m s = Some (x, CHR '']'' # rest)"
  shows "parse_elements (Suc m) s = Some ([x], rest)"
  using assms by (simp add: skip_ws_chars)

lemma parse_elements_more:
  assumes "parse_value m s = Some (x, CHR '','' # s')" and "parse_elements m s' = Some (xs, rest)"
  shows "parse_elements (Suc m) s = Some (x # xs, rest)"
  using assms by (simp add: skip_ws_chars)

lemma parse_members_last:
  assumes "parse_string_body s = Some (k, CHR '':'' # s')"
    and "parse_value m s' = Some (v, CHR ''}'' # rest)"
  shows "parse_members (Suc m) (CHR 0x22 # s) = Some ([(k, v)], rest)"
  using assms by (simp add: skip_ws_chars)

lemma parse_members_more:
  assumes "parse_string_body s = Some (k, CHR '':'' # s')"
    and "parse_value m s' = Some (v, CHR '','' # s'')"
    and "parse_members m s'' = Some (kvs, rest)"
  shows "parse_members (Suc m) (CHR 0x22 # s) = Some ((k, v) # kvs, rest)"
  using assms by (simp add: skip_ws_chars)

lemma parse_stringify:
  "\<forall>n rest. length (stringify_value v) \<le> n \<longrightarrow> number_end rest \<longrightarrow>
     parse_value n (stringify_value v @ rest) = Some (v, rest)"
  "xs \<noteq> [] \<longrightarrow> (\<forall>n rest. Suc (length (stringify_elements xs)) \<le> n \<longrightarrow>
     parse_elements n (stringify_elements xs @ CHR '']'' # rest) = Some (xs, rest))"
  "kvs \<noteq> [] \<longrightarrow> (\<forall>n rest. Suc (length (stringify_members kvs)) \<le> n \<longrightarrow>
     parse_members n (stringify_members kvs @ CHR ''}'' # rest) = Some (kvs, rest))"
proof (induction v and xs and kvs rule: stringify_value_stringify_elements_stringify_members.induct)
  case 1
  show ?case
  proof (intro allI impI)
    fix n rest assume "length (stringify_value JNull) \<le> n"
    then obtain m where "n = Suc m" by (cases n) simp_all
    then show "parse_value n (stringify_value JNull @ rest) = Some (JNull, rest)"
      using parse_value_literals(1) [of m rest] by simp
  qed
next
  case (2 b)
  show ?case
  proof (intro allI impI)
    fix n rest assume "length (stringify_value (JBool b)) \<le> n"
    then obtain m where "n = Suc m" by (cases n) (simp_all split: if_splits)
    then show "parse_value n (stringify_value (JBool b) @ rest) = Some (JBool b, rest)"
      using parse_value_literals(2,3) [of m rest] by (cases b) simp_all
  qed
next
  case (3 i)
  show ?case
  proof (intro allI impI)
    fix n rest assume len: "length (stringify_value (JNum i)) \<le> n" and ne: "number_end rest"
    obtain c cs where shape: "string_of_int i = c # cs"
      using string_of_int_start [of i] by (cases "string_of_int i") auto
    with string_of_int_start [of i] have start: "c = CHR ''-'' \<or> is_digit c" by simp
    from len shape obtain m where "n = Suc m" by (cases n) simp_all
    then have "parse_value n (stringify_value (JNum i) @ rest) = parse_number (string_of_int i @ rest)"
      using parse_value_number [OF start, of m "cs @ rest"] shape by simp
    then show "parse_value n (stringify_value (JNum i) @ rest) = Some (JNum i, rest)"
      by (simp add: parse_number_int [OF ne])
  qed
next
  case (4 s)
  show ?case
  proof (intro allI impI)
    fix n rest assume "length (stringify_value (JStr s)) \<le> n"
    then obtain m where "n = Suc m" by (cases n) (simp_all add: quote_start)
    then show "parse_value n (stringify_value (JStr s) @ rest) = Some (JStr s, rest)"
      by (simp add: quote_start parse_value_string parse_string_body_quoted del: parse_value.simps)
  qed
next
  case (5 xs)
  show ?case
  proof (intro allI impI)
    fix n rest assume len: "length (stringify_value (JArr xs)) \<le> n"
    then obtain m where n: "n = Suc m" by (cases n) simp_all
    show "parse_value n (stringify_value (JArr xs) @ rest) = Some (JArr xs, rest)"
    proof (cases "xs = []")
      case True
      then show ?thesis using n parse_value_empty(1) [of m rest] by simp
    next
      case False
      obtain c cs where shape: "stringify_elements xs = c # cs"
        using stringify_elements_start [OF False] by (cases "stringify_elements xs") auto
      with stringify_elements_start [OF False] have start: "value_start c" by simp
      from len n have "Suc (length (stringify_elements xs)) \<le> m" by simp
      with 5 False
      have "parse_elements m (stringify_elements xs @ CHR '']'' # rest) = Some (xs, rest)" by simp
      then show ?thesis
        using n shape parse_value_array [OF start, of m "cs @ CHR '']'' # rest"] by simp
    qed
  qed
next
  case (6 kvs)
  show ?case
  proof (intro allI impI)
    fix n rest assume len: "length (stringify_value (JObj kvs)) \<le> n"
    then obtain m where n: "n = Suc m" by (cases n) simp_all
    show "parse_value n (stringify_value (JObj kvs) @ rest) = Some (JObj kvs, rest)"
    proof (cases "kvs = []")
      case True
      then show ?thesis using n parse_value_empty(2) [of m rest] by simp
    next
      case False
      obtain c cs where shape: "stringify_members kvs = c # cs"
        using stringify_members_start [OF False] by (cases "stringify_members kvs") auto
      with stringify_members_start [OF False] have start: "value_start c"
        by (simp add: value_start_chars)
      from len n have "Suc (length (stringify_members kvs)) \<le> m" by simp
      with 6 False
      have "parse_members m (stringify_members kvs @ CHR ''}'' # rest) = Some (kvs, rest)" by simp
      then show ?thesis
        using n shape parse_value_object [OF start, of m "cs @ CHR ''}'' # rest"] by simp
    qed
  qed
next
  case 7
  show ?case by simp
next
  case (8 x)
  show ?case
  proof (intro allI impI)
    fix n rest assume len: "Suc (length (stringify_elements [x])) \<le> n"
    then obtain m where n: "n = Suc m" by (cases n) simp_all
    with len have "length (stringify_value x) \<le> m" by simp
    with 8 have "parse_value m (stringify_value x @ CHR '']'' # rest) = Some (x, CHR '']'' # rest)"
      by (simp add: number_end_chars)
    from parse_elements_last [OF this] n
    show "parse_elements n (stringify_elements [x] @ CHR '']'' # rest) = Some ([x], rest)" by simp
  qed
next
  case (9 x y ys)
  show ?case
  proof (intro allI impI)
    fix n rest assume len: "Suc (length (stringify_elements (x # y # ys))) \<le> n"
    then obtain m where n: "n = Suc m" by (cases n) simp_all
    with len have lx: "length (stringify_value x) \<le> m"
      and lr: "Suc (length (stringify_elements (y # ys))) \<le> m" by simp_all
    let ?tail = "stringify_elements (y # ys) @ CHR '']'' # rest"
    from 9(1) lx have a: "parse_value m (stringify_value x @ CHR '','' # ?tail) = Some (x, CHR '','' # ?tail)"
      by (simp add: number_end_chars)
    from 9(2) lr have b: "parse_elements m ?tail = Some (y # ys, rest)" by simp
    from parse_elements_more [OF a b] n
    show "parse_elements n (stringify_elements (x # y # ys) @ CHR '']'' # rest) = Some (x # y # ys, rest)"
      by simp
  qed
next
  case 10
  show ?case by simp
next
  case (11 k v)
  show ?case
  proof (intro allI impI)
    fix n rest assume len: "Suc (length (stringify_members [(k, v)])) \<le> n"
    then obtain m where n: "n = Suc m" by (cases n) simp_all
    with len have "length (stringify_value v) \<le> m" by simp
    with 11 have b: "parse_value m (stringify_value v @ CHR ''}'' # rest) = Some (v, CHR ''}'' # rest)"
      by (simp add: number_end_chars)
    have a: "parse_string_body (concat (map quote_unit k) @ CHR 0x22 # CHR '':'' # stringify_value v @ CHR ''}'' # rest)
               = Some (k, CHR '':'' # stringify_value v @ CHR ''}'' # rest)"
      by (rule parse_string_body_quoted)
    from parse_members_last [OF a b] n
    show "parse_members n (stringify_members [(k, v)] @ CHR ''}'' # rest) = Some ([(k, v)], rest)"
      by (simp add: quote_start)
  qed
next
  case (12 k v kv ms)
  show ?case
  proof (intro allI impI)
    fix n rest assume len: "Suc (length (stringify_members ((k, v) # kv # ms))) \<le> n"
    then obtain m where n: "n = Suc m" by (cases n) simp_all
    with len have lv: "length (stringify_value v) \<le> m"
      and lr: "Suc (length (stringify_members (kv # ms))) \<le> m" by simp_all
    let ?tail = "stringify_members (kv # ms) @ CHR ''}'' # rest"
    from 12(1) lv have b: "parse_value m (stringify_value v @ CHR '','' # ?tail) = Some (v, CHR '','' # ?tail)"
      by (simp add: number_end_chars)
    from 12(2) lr have c: "parse_members m ?tail = Some (kv # ms, rest)" by simp
    have a: "parse_string_body (concat (map quote_unit k) @ CHR 0x22 # CHR '':'' # stringify_value v @ CHR '','' # ?tail)
               = Some (k, CHR '':'' # stringify_value v @ CHR '','' # ?tail)"
      by (rule parse_string_body_quoted)
    from parse_members_more [OF a b c] n
    show "parse_members n (stringify_members ((k, v) # kv # ms) @ CHR ''}'' # rest) = Some ((k, v) # kv # ms, rest)"
      by (simp add: quote_start)
  qed
qed

lemma JSON_parse_stringify: "JSON_parse (JSON_stringify (Some v)) = Inr v"
proof -
  have "parse_value (Suc (length (stringify_value v))) (stringify_value v @ []) = Some (v, [])"
    using parse_stringify(1) [rule_format, of v "Suc (length (stringify_value v))" "[]"]
    by (simp add: number_end_chars del: parse_value.simps)
  then show ?thesis
    by (simp add: JSON_parse_def JSON_stringify_def skip_ws_def del: parse_value.simps)
qed

lemma JSON_parse_undefined: "JSON_parse (JSON_stringify None) = Inl SyntaxError"
  by (simp add: JSON_parse_def JSON_stringify_def)

lemma responses_get_pets_200:
  "responses get_pets (string_of_nat 200)
     = Some \<lparr>content = Some [''application/json'' \<mapsto> \<lparr>schema = Some pet_schema\<rparr>]\<rparr>"
  by (simp add: string_of_nat_codes get_pets_def)

lemma statusCode_world0: "statusCode world0 = 200"
  by (simp add: world0_def)



subsection \<open>What the interceptor delivers\<close>




lemma unparseable_iff_undefined:
  "(\<exists>err. JSON_parse (JSON_stringify data) = Inl err) = (data = None)"
  by (cases data) (simp_all add: JSON_parse_undefined JSON_parse_stringify)

text \<open>
  C5. The one payload whose serialisation does not parse is \<open>undefined\<close> (a controller
  that calls \<open>res.send()\<close>). Sent with status 200, for which \<open>GET /pets\<close> declares a
  schema, it is not logged as a warning and delivered: \<open>JSON.parse\<close> raises a
  SyntaxError that leaves the interceptor, nothing is validated and the original
  \<open>send\<close> is not called.
\<close>

theorem undefined_payload_raises:
  "OASRouter_send sample_env petstore ''get'' ''/pets'' None world0
     = (Inl SyntaxError,
        world0\<lparr>log := checkResponse_header 200 ''get'' ''/pets'' None
                  @ [Message ''schema to use for validation'', Value (Some pet_schema)]\<rparr>)
   \<and> sent (snd (OASRouter_send sample_env petstore ''get'' ''/pets'' None world0)) = []
   \<and> validated (snd (OASRouter_send sample_env petstore ''get'' ''/pets'' None world0)) = []"
proof -
  have p: "JSON_parse None = Inl SyntaxError" by (simp add: JSON_parse_def)
  show ?thesis
    unfolding OASRouter_send_def Let_def statusCode_world0
    by (simp add: JSON_stringify_def
          checkResponse_unparseable [OF operation_of_petstore(1) responses_get_pets_200 _ _ p]
          world0_def)
qed

subsection \<open>The validated path and the next tick\<close>

text \<open>
  A JSON value sent with a status code for which the specification declares JSON content,
  also a string whose characters are no JSON text, parses back to itself. The interceptor
  returns with the serialisation delivered and the validator's callback queued; the
  warning of a mismatch is logged when the callback runs, in the next tick.
\<close>

lemma payload_validated:
  assumes "operation_of spec url method = Inr d"
    and "responses d (string_of_nat (statusCode w)) = Some section"
    and "content section = Some c"
    and "c ''application/json'' = Some mediaType"
  shows "OASRouter_send e spec method url (Some v) w =
           (Inr (),
            w\<lparr>log := log w @ checkResponse_header (statusCode w) method url (Some (stringify_value v))
                       @ [Message ''schema to use for validation'', Value (schema mediaType)],
              validated := validated w @ [(v, schema mediaType)],
              pending := pending w @ [(validator e v (schema mediaType), v)],
              sent := sent w @ [(statusCode w, Some (JStr (stringify_value v)))]\<rparr>)"
proof -
  have p: "JSON_parse (JSON_stringify (Some v)) = Inr v" by (rule JSON_parse_stringify)
  show ?thesis
    unfolding OASRouter_send_def Let_def checkResponse_validated [OF assms p]
    by (simp add: oldSend_def JSON_stringify_def)
qed

lemma process_nextTick_one:
  assumes "pending w = [(err, data)]"
  shows "process_nextTick w =
           w\<lparr>pending := [],
              log := log w @ (case err of
                                None \<Rightarrow> []
                              | Some errs \<Rightarrow>
                                  [Message (''WARNING: wrong data in the response. '' @ processErr errs),
                                   Value (Some data)])\<rparr>"
  using assms
  by (cases err) (simp_all add: process_nextTick_def validate_callback_def logger_info_def)

end
